theory Spec2Isabelle
  imports Main
begin

section \<open>pgcore: the batching Postgres sink\<close>

subsection \<open>Data\<close>

text \<open>
  A decoded JSON value, as \<^verbatim>\<open>encoding/json\<close> stores it in an \<^verbatim>\<open>any\<close>:
  nil, bool, float64 (kept as an integer here, no claim reads a number), string,
  \<^verbatim>\<open>[]any\<close> and \<^verbatim>\<open>map[string]any\<close>.
\<close>

datatype json =
    JNull
  | JBool bool
  | JNumber int
  | JString string
  | JArray "json list"
  | JObject "(string \<times> json) list"

text \<open>\<^verbatim>\<open>map[string]any\<close>, the target of \<^verbatim>\<open>json.Unmarshal\<close> in flush.\<close>

type_synonym jmap = "string \<rightharpoonup> json"

text \<open>
  \<^verbatim>\<open>json.Unmarshal(line, &tmp)\<close> belongs to the Go standard library; the model takes it as
  a parameter of this type: \<open>None\<close> is a non-nil error, \<open>Some m\<close> the decoded object.
\<close>

type_synonym unmarshal = "string \<Rightarrow> jmap option"

text \<open>A \<^verbatim>\<open>zapcore.Field\<close>: a key and its value.\<close>

type_synonym field = "string \<times> json"

text \<open>A \<^verbatim>\<open>zapcore.Entry\<close>; \<^verbatim>\<open>zapcore.Level\<close> is an \<^verbatim>\<open>int8\<close>, only ever compared.\<close>

record entry =
  Level :: int
  Message :: string

text \<open>
  \<^verbatim>\<open>Encoder.EncodeEntry\<close> is zap's; a parameter of the model. It receives the fields
  pre-bound to the encoder, the entry and the call's fields, and returns an error
  (\<open>Inl\<close>) or the encoded bytes.
\<close>

type_synonym encode = "field list \<Rightarrow> entry \<Rightarrow> field list \<Rightarrow> string + string"

text \<open>
  The calls flush makes on \<^verbatim>\<open>database/sql\<close>. \<open>Prepare\<close> is
  \<^verbatim>\<open>tx.Prepare(pq.CopyIn("logs", "req_id", "raw"))\<close>, \<open>Exec reqID raw\<close> is
  \<^verbatim>\<open>stmt.Exec(reqID, string(line))\<close>, \<open>ExecFinal\<close> is \<^verbatim>\<open>stmt.Exec()\<close>.
\<close>

datatype db_call = Begin | Prepare | Exec string string | ExecFinal | StmtClose | Commit | Rollback

text \<open>
  The database behind the handle: given the calls made so far and the next call, the
  error that call returns (\<open>None\<close> is nil). Any deterministic database is such a function.
\<close>

type_synonym driver = "db_call list \<Rightarrow> db_call \<Rightarrow> string option"

text \<open>
  A \<^verbatim>\<open>chan []byte\<close>: its buffer (oldest first) and its capacity. Nothing in the package
  closes \<^verbatim>\<open>c.ch\<close>, so the type has no closed flag.
\<close>

record chan =
  buf :: "string list"
  cap :: nat

text \<open>
  \<^verbatim>\<open>type core struct\<close>. The encoder, the channels and the database handle are
  references: the encoders and channels live in the state below, indexed by reference.
  The handle is non-nil (\<^verbatim>\<open>betterlogs.New\<close> checks it before \<^verbatim>\<open>pgcore.New\<close>).
  The \<^verbatim>\<open>wg\<close> field of the core that \<^verbatim>\<open>New\<close> builds is the counter \<open>wg\<close> of the state.
\<close>

record core =
  enc :: nat
  level :: int
  db :: nat
  ch :: nat
  stop :: nat
  batchSize :: int
  maxWait :: int
  reqKeys :: "string list"

text \<open>
  The state one sink runs on: the heap of \<^verbatim>\<open>chan []byte\<close>, the heap of
  \<^verbatim>\<open>chan struct{}\<close> (nothing is ever sent on one: \<open>sigs s r\<close> says whether it is closed),
  the heap of encoders (each a list of pre-bound fields), the next free reference, the worker's local \<^verbatim>\<open>batch\<close>, the
  WaitGroup counter, the database calls made so far and the lines written by
  \<^verbatim>\<open>log.Printf\<close>.
\<close>

record state =
  chans :: "nat \<Rightarrow> chan"
  sigs :: "nat \<Rightarrow> bool"
  encs :: "nat \<Rightarrow> field list"
  fresh :: nat
  batch :: "string list"
  wg :: nat
  calls :: "db_call list"
  logs :: "string list"

subsection \<open>flush\<close>

definition log_Printf :: "string \<Rightarrow> state \<Rightarrow> state" where
  "log_Printf line s = s\<lparr>logs := logs s @ [line]\<rparr>"

text \<open>One call on the database: its error, and the state with the call recorded.\<close>

definition db_do :: "driver \<Rightarrow> db_call \<Rightarrow> state \<Rightarrow> string option \<times> state" where
  "db_do d c s = (d (calls s) c, s\<lparr>calls := calls s @ [c]\<rparr>)"

text \<open>
  A call whose error is only logged:
  \<^verbatim>\<open>if _, err := call; err != nil { log.Printf(prefix, err) }\<close>.
\<close>

definition db_log :: "driver \<Rightarrow> string \<Rightarrow> db_call \<Rightarrow> state \<Rightarrow> state" where
  "db_log d prefix c s =
     (case db_do d c s of
        (None, s1) \<Rightarrow> s1
      | (Some e, s1) \<Rightarrow> log_Printf (prefix @ e) s1)"

text \<open>
  The scan of \<^verbatim>\<open>c.reqKeys\<close> in flush: the first key whose value is a non-empty string
  gives \<^verbatim>\<open>reqID\<close> and breaks; \<^verbatim>\<open>reqID\<close> starts as the empty string.
\<close>

fun reqID_of :: "string list \<Rightarrow> jmap \<Rightarrow> string" where
  "reqID_of [] tmp = []"
| "reqID_of (k # ks) tmp =
     (case tmp k of
        Some (JString s) \<Rightarrow> (if s \<noteq> [] then s else reqID_of ks tmp)
      | _ \<Rightarrow> reqID_of ks tmp)"

text \<open>
  \<^verbatim>\<open>for _, line := range batch\<close>: a line that does not unmarshal is skipped by
  \<^verbatim>\<open>continue\<close>; otherwise one \<^verbatim>\<open>stmt.Exec(reqID, string(line))\<close>, whose error is logged.
\<close>

fun flush_lines :: "unmarshal \<Rightarrow> driver \<Rightarrow> string list \<Rightarrow> string list \<Rightarrow> state \<Rightarrow> state" where
  "flush_lines um d keys [] s = s"
| "flush_lines um d keys (line # rest) s =
     (case um line of
        None \<Rightarrow> flush_lines um d keys rest s
      | Some tmp \<Rightarrow>
          flush_lines um d keys rest
            (db_log d ''pgcore: exec err: '' (Exec (reqID_of keys tmp) line) s))"

text \<open>The closure \<^verbatim>\<open>flush\<close> of \<^verbatim>\<open>(*core).loop\<close>, one branch for each of its returns.\<close>

definition flush :: "unmarshal \<Rightarrow> driver \<Rightarrow> core \<Rightarrow> state \<Rightarrow> state" where
  "flush um d c s =
     (if batch s = [] then s
      else
        (case db_do d Begin s of
           (Some e, s1) \<Rightarrow> (log_Printf (''pgcore: begin err: '' @ e) s1)\<lparr>batch := []\<rparr>
         | (None, s1) \<Rightarrow>
             (case db_do d Prepare s1 of
                (Some e, s2) \<Rightarrow>
                  (snd (db_do d Rollback (log_Printf (''pgcore: prepare err: '' @ e) s2)))
                    \<lparr>batch := []\<rparr>
              | (None, s2) \<Rightarrow>
                  (db_log d ''pgcore: commit err: '' Commit
                    (db_log d ''pgcore: stmt close err: '' StmtClose
                      (db_log d ''pgcore: final exec err: '' ExecFinal
                        (flush_lines um d (reqKeys c) (batch s2) s2))))
                    \<lparr>batch := []\<rparr>)))"

subsection \<open>New, Enabled, With, Check, Write\<close>

text \<open>\<^verbatim>\<open>pgcore.Config\<close>; \<^verbatim>\<open>MaxWait\<close> is a \<^verbatim>\<open>time.Duration\<close>, in nanoseconds.\<close>

record pg_Config =
  pg_Level :: int
  BatchSize :: int
  MaxWait :: int
  BufferSize :: int
  RequestIDKeys :: "string list"

text \<open>The defaults \<^verbatim>\<open>pgcore.New\<close> substitutes before it builds the core.\<close>

definition pg_defaults :: "pg_Config \<Rightarrow> pg_Config" where
  "pg_defaults cfg =
     \<lparr>pg_Level = pg_Level cfg,
      BatchSize = (if BatchSize cfg \<le> 0 then 1000 else BatchSize cfg),
      MaxWait = (if MaxWait cfg \<le> 0 then 2 * 1000000000 else MaxWait cfg),
      BufferSize = (if BufferSize cfg \<le> 0 then 10000 else BufferSize cfg),
      RequestIDKeys =
        (if length (RequestIDKeys cfg) = 0
         then [''request_id'', ''req_id'', ''correlation_id'', ''X-Request-ID'',
               ''X-Correlation-ID'', ''requestid'']
         else RequestIDKeys cfg)\<rparr>"

text \<open>
  What the Go runtime answers to \<^verbatim>\<open>make(chan []byte, n)\<close> and to
  \<^verbatim>\<open>make([][]byte, 0, n)\<close>: each panics when \<open>n\<close> elements are more than the runtime can
  allocate (\<^verbatim>\<open>makechan: size out of range\<close>, \<^verbatim>\<open>makeslice: cap out of range\<close>). The
  limits are the runtime's and the platform's, not the repository's: parameters of the
  model, \<open>chan_fits rt n\<close> and \<open>slice_fits rt n\<close> saying that the make succeeds.
\<close>

record runtime =
  chan_fits :: "int \<Rightarrow> bool"
  slice_fits :: "int \<Rightarrow> bool"

text \<open>
  \<^verbatim>\<open>pgcore.New\<close>. After the defaults, \<^verbatim>\<open>make(chan []byte, cfg.BufferSize)\<close> panics
  (\<open>Inl\<close>) when the runtime cannot make the channel; nothing in the package bounds the
  size from above. Then \<^verbatim>\<open>go c.loop()\<close>: the worker's first allocation,
  \<^verbatim>\<open>make([][]byte, 0, c.batchSize)\<close>, panics when the runtime cannot make the batch, and
  the panic of a goroutine ends the process, so this is a panic of the construction
  too. Otherwise the result is the core, the error (always nil) and the state of the
  new sink: a fresh encoder with no pre-bound field (reference 0),
  the channel (reference 0 of the channels; a reference never allocated reads as a
  channel without room), \<^verbatim>\<open>make(chan struct{})\<close> (reference 0 of the signals),
  \<^verbatim>\<open>c.wg.Add(1)\<close> and the worker started with an empty batch. The close function it
  returns is \<open>closeFn\<close> below, on the same core.
\<close>

definition pgcore_New :: "runtime \<Rightarrow> nat \<Rightarrow> pg_Config \<Rightarrow> string + ((core \<times> string option) \<times> state)" where
  "pgcore_New rt dbh cfg0 =
     (let cfg = pg_defaults cfg0
      in if \<not> chan_fits rt (BufferSize cfg) then Inl ''makechan: size out of range''
         else if \<not> slice_fits rt (BatchSize cfg) then Inl ''makeslice: cap out of range''
         else
           (let c = \<lparr>enc = 0, level = pg_Level cfg, db = dbh, ch = 0, stop = 0,
                     batchSize = BatchSize cfg, maxWait = MaxWait cfg,
                     reqKeys = RequestIDKeys cfg\<rparr>;
                s = \<lparr>chans = (\<lambda>r. \<lparr>buf = [], cap = 0\<rparr>)
                               (0 := \<lparr>buf = [], cap = nat (BufferSize cfg)\<rparr>),
                     sigs = (\<lambda>r. False),
                     encs = (\<lambda>r. []),
                     fresh = 1, batch = [], wg = 1, calls = [], logs = []\<rparr>
            in Inr ((c, None), s)))"

text \<open>
  \<^verbatim>\<open>(*core).Enabled\<close>: \<^verbatim>\<open>c.level\<close> holds the \<^verbatim>\<open>zapcore.Level\<close> of the configuration, whose
  \<^verbatim>\<open>Enabled(lvl)\<close> is \<^verbatim>\<open>lvl >= l\<close>.
\<close>

definition Enabled :: "core \<Rightarrow> int \<Rightarrow> bool" where
  "Enabled c lvl = (lvl \<ge> level c)"

text \<open>The levels of zapcore, as it numbers them.\<close>

definition DebugLevel :: int where "DebugLevel = - 1"
definition InfoLevel :: int where "InfoLevel = 0"
definition WarnLevel :: int where "WarnLevel = 1"
definition ErrorLevel :: int where "ErrorLevel = 2"
definition DPanicLevel :: int where "DPanicLevel = 3"
definition PanicLevel :: int where "PanicLevel = 4"
definition FatalLevel :: int where "FatalLevel = 5"

text \<open>
  \<^verbatim>\<open>Encoder.Clone\<close> (zap's contract: a copy whose later fields do not reach the original):
  a new encoder at the next free reference, with the same pre-bound fields.
\<close>

definition Clone :: "nat \<Rightarrow> state \<Rightarrow> nat \<times> state" where
  "Clone e s = (fresh s, s\<lparr>encs := (encs s)(fresh s := encs s e), fresh := Suc (fresh s)\<rparr>)"

text \<open>\<^verbatim>\<open>f.AddTo(enc)\<close>: the field is appended to the encoder's pre-bound fields.\<close>

definition AddTo :: "field \<Rightarrow> nat \<Rightarrow> state \<Rightarrow> state" where
  "AddTo f e s = s\<lparr>encs := (encs s)(e := encs s e @ [f])\<rparr>"

text \<open>\<^verbatim>\<open>(*core).With\<close>\<close>

definition With :: "core \<Rightarrow> field list \<Rightarrow> state \<Rightarrow> core \<times> state" where
  "With c fs s =
     (case Clone (enc c) s of
        (e, s1) \<Rightarrow>
          (let clone = \<lparr>enc = e, level = level c, db = db c, ch = ch c, stop = stop c,
                        batchSize = batchSize c, maxWait = maxWait c, reqKeys = reqKeys c\<rparr>
           in (clone, fold (\<lambda>f. AddTo f (enc clone)) fs s1)))"

text \<open>
  A \<^verbatim>\<open>*zapcore.CheckedEntry\<close>: nil, or the entry and the cores that will write it.
  \<^verbatim>\<open>AddCore\<close> is zap's: it makes the checked entry when it is nil and appends the core.
\<close>

type_synonym checked = "(entry \<times> core list) option"

definition AddCore :: "checked \<Rightarrow> entry \<Rightarrow> core \<Rightarrow> checked" where
  "AddCore ce ent c =
     (case ce of None \<Rightarrow> Some (ent, [c]) | Some (e, cs) \<Rightarrow> Some (e, cs @ [c]))"

text \<open>\<^verbatim>\<open>(*core).Check\<close>\<close>

definition Check :: "core \<Rightarrow> entry \<Rightarrow> checked \<Rightarrow> checked" where
  "Check c ent ce = (if Enabled c (Level ent) then AddCore ce ent c else ce)"

text \<open>
  \<^verbatim>\<open>(*core).Write\<close>: the encoding error is returned; otherwise the bytes are sent on
  \<^verbatim>\<open>c.ch\<close> when its buffer has room, and the \<^verbatim>\<open>default\<close> branch of the select logs the
  drop when it has none. Both return nil.
\<close>

definition Write :: "encode \<Rightarrow> core \<Rightarrow> entry \<Rightarrow> field list \<Rightarrow> state \<Rightarrow> string option \<times> state" where
  "Write encode c ent fs s =
     (case encode (encs s (enc c)) ent fs of
        Inl err \<Rightarrow> (Some err, s)
      | Inr b \<Rightarrow>
          (let q = chans s (ch c)
           in if length (buf q) < cap q
              then (None, s\<lparr>chans := (chans s)(ch c := q\<lparr>buf := buf q @ [b]\<rparr>)\<rparr>)
              else (None, log_Printf ''pgcore: dropping log (buffer full)'' s)))"

text \<open>
  What zap's logger does with one record on one core: \<^verbatim>\<open>Check\<close> on a nil checked
  entry, then \<^verbatim>\<open>Write\<close> on every core the checked entry holds (none when it is nil).
\<close>

definition emit :: "encode \<Rightarrow> core \<Rightarrow> entry \<Rightarrow> field list \<Rightarrow> state \<Rightarrow> state" where
  "emit encode c ent fs s =
     (case Check c ent None of
        None \<Rightarrow> s
      | Some (e, cs) \<Rightarrow> fold (\<lambda>c' s'. snd (Write encode c' e fs s')) cs s)"

subsection \<open>The worker and the close function\<close>

text \<open>The three cases of the select in \<^verbatim>\<open>(*core).loop\<close>.\<close>

datatype select_case = CaseStop | CaseRecv | CaseTick

text \<open>
  One pass of the \<^verbatim>\<open>for { select { ... } }\<close> that takes the given case: \<open>None\<close> when that
  case cannot proceed (the stop channel is open, the queue is empty; the ticker may fire
  at any time), otherwise whether the worker returns, and the state.
\<close>

fun select_step :: "unmarshal \<Rightarrow> driver \<Rightarrow> core \<Rightarrow> select_case \<Rightarrow> state \<Rightarrow> (bool \<times> state) option" where
  "select_step um d c CaseStop s =
     (if sigs s (stop c) then Some (True, flush um d c s) else None)"
| "select_step um d c CaseRecv s =
     (case buf (chans s (ch c)) of
        [] \<Rightarrow> None
      | b # rest \<Rightarrow>
          (let s1 = s\<lparr>chans := (chans s)(ch c := (chans s (ch c))\<lparr>buf := rest\<rparr>),
                      batch := batch s @ [b]\<rparr>
           in Some (False,
                if int (length (batch s1)) \<ge> batchSize c then flush um d c s1 else s1)))"
| "select_step um d c CaseTick s = Some (False, flush um d c s)"

text \<open>
  \<^verbatim>\<open>(*core).loop\<close> along a schedule: the cases its select takes, in order. A case that
  cannot proceed is not taken. On the stop case the worker returns and the deferred
  \<^verbatim>\<open>c.wg.Done()\<close> runs; when the schedule ends first the worker is still in its select.
\<close>

fun loop :: "unmarshal \<Rightarrow> driver \<Rightarrow> core \<Rightarrow> select_case list \<Rightarrow> state \<Rightarrow> state" where
  "loop um d c [] s = s"
| "loop um d c (x # xs) s =
     (case select_step um d c x s of
        None \<Rightarrow> loop um d c xs s
      | Some (True, s1) \<Rightarrow> s1\<lparr>wg := wg s1 - 1\<rparr>
      | Some (False, s1) \<Rightarrow> loop um d c xs s1)"

text \<open>The worker goroutine: it runs only while it has not returned.\<close>

definition worker :: "unmarshal \<Rightarrow> driver \<Rightarrow> core \<Rightarrow> select_case list \<Rightarrow> state \<Rightarrow> state" where
  "worker um d c sched s = (if wg s = 0 then s else loop um d c sched s)"

text \<open>
  The close function of \<^verbatim>\<open>pgcore.New\<close>. \<^verbatim>\<open>close(c.stop)\<close> panics on a closed channel
  (\<open>Inl\<close>). Then it waits: \<open>sched\<close> is what the worker's select takes until the worker
  returns or the context is done, whichever comes first. The result is nil when the
  WaitGroup has reached zero, and \<^verbatim>\<open>ctx.Err()\<close> otherwise.
\<close>

definition closeFn :: "unmarshal \<Rightarrow> driver \<Rightarrow> core \<Rightarrow> select_case list \<Rightarrow> state \<Rightarrow> string + (string option \<times> state)" where
  "closeFn um d c sched s =
     (if sigs s (stop c) then Inl ''close of closed channel''
      else
        (let s1 = worker um d c sched (s\<lparr>sigs := (sigs s)(stop c := True)\<rparr>)
         in Inr (if wg s1 = 0 then None else Some ''context deadline exceeded'', s1)))"

section \<open>betterlogs: the logger\<close>

text \<open>\<^verbatim>\<open>betterlogs.Config\<close>; a nil \<^verbatim>\<open>*sql.DB\<close> is \<open>None\<close>.\<close>

record Config =
  ServiceName :: string
  DB :: "nat option"
  cfg_Level :: int
  Stdout :: bool
  EnablePostgres :: bool
  PG_BatchSize :: int
  PG_MaxWait :: int
  PG_BufferSize :: int

text \<open>The cores of the tee: zap's console core at a level, or a pgcore.\<close>

datatype zcore = ConsoleCore int | PgCore core

text \<open>The logger: the tee of its cores and the \<^verbatim>\<open>service\<close> field.\<close>

record logger =
  cores :: "zcore list"
  service :: string

text \<open>The cleanup closure: what it captured as \<^verbatim>\<open>pgClose\<close> (\<open>None\<close> is nil).\<close>

datatype cleanup = Cleanup "core option"

text \<open>
  The end of \<^verbatim>\<open>betterlogs.New\<close>, from \<^verbatim>\<open>if len(cores) == 0\<close> on: the logger, the cleanup
  and the error, and the state of the pgcore sink when one was started.
\<close>

definition New_finish :: "string \<Rightarrow> zcore list \<Rightarrow> core option \<Rightarrow> state option \<Rightarrow> (logger option \<times> cleanup option \<times> string option) \<times> state option" where
  "New_finish name cs pgClose st =
     (if length cs = 0
      then ((None, None,
             Some ''better-logs: no logging core enabled (Stdout=false and EnablePostgres=false)''),
            st)
      else ((Some \<lparr>cores = cs, service = name\<rparr>, Some (Cleanup pgClose), None), st))"

text \<open>
  \<^verbatim>\<open>betterlogs.New\<close>: \<open>Inl\<close> is the panic of \<^verbatim>\<open>pgcore.New\<close>, which nothing recovers;
  \<open>Inr\<close> is what New returns, with the state of the pgcore sink when one was started.
\<close>

definition New :: "runtime \<Rightarrow> Config \<Rightarrow> string + ((logger option \<times> cleanup option \<times> string option) \<times> state option)" where
  "New rt cfg0 =
     (let cfg = (if ServiceName cfg0 = [] then cfg0\<lparr>ServiceName := ''app''\<rparr> else cfg0);
          cs = (if Stdout cfg then [ConsoleCore (cfg_Level cfg)] else [])
      in if EnablePostgres cfg
         then
           (case DB cfg of
              None \<Rightarrow>
                Inr ((None, None, Some ''better-logs: EnablePostgres is true but DB is nil''),
                     None)
            | Some dbh \<Rightarrow>
                (case pgcore_New rt dbh
                        \<lparr>pg_Level = cfg_Level cfg, BatchSize = PG_BatchSize cfg,
                         MaxWait = PG_MaxWait cfg, BufferSize = PG_BufferSize cfg,
                         RequestIDKeys = []\<rparr> of
                   Inl p \<Rightarrow> Inl p
                 | Inr ((pgCore, Some err), s) \<Rightarrow>
                     Inr ((None, None, Some (''better-logs: failed to init pg core: '' @ err)),
                          Some s)
                 | Inr ((pgCore, None), s) \<Rightarrow>
                     Inr (New_finish (ServiceName cfg) (cs @ [PgCore pgCore]) (Some pgCore)
                            (Some s))))
         else Inr (New_finish (ServiceName cfg) cs None None))"

section \<open>An example environment\<close>

text \<open>
  Concrete inputs for the closed statements below: three payloads, the results of
  \<^verbatim>\<open>json.Unmarshal\<close> on them (the third is not JSON), an encoder that writes the message
  alone, a database on which every call succeeds and one whose every
  \<^verbatim>\<open>stmt.Exec(reqID, raw)\<close> fails, a runtime with the allocation limits of Go on
  linux/amd64 (at most \<open>2^48\<close> bytes, 24 bytes for each \<^verbatim>\<open>[]byte\<close>, 96 for the channel's
  header), and a sink built by \<^verbatim>\<open>pgcore.New\<close>.
\<close>

definition payload_abc :: string where
  \<open>payload_abc = ''{"req_id":"abc"}''\<close>

definition payload_xyz :: string where
  \<open>payload_xyz = ''{"request_id":"","req_id":"xyz"}''\<close>

definition payload_bad :: string where
  "payload_bad = ''not json''"

definition example_unmarshal :: unmarshal where
  "example_unmarshal line =
     (if line = payload_abc then Some [''req_id'' \<mapsto> JString ''abc'']
      else if line = payload_xyz
      then Some [''request_id'' \<mapsto> JString [], ''req_id'' \<mapsto> JString ''xyz'']
      else None)"

definition example_encode :: encode where
  "example_encode pre ent fs = Inr (Message ent)"

definition db_ok :: driver where
  "db_ok hist call = None"

definition db_exec_fails :: driver where
  "db_exec_fails hist call =
     (case call of Exec r raw \<Rightarrow> Some ''copy failed'' | _ \<Rightarrow> None)"

definition example_cfg :: pg_Config where
  "example_cfg =
     \<lparr>pg_Level = InfoLevel, BatchSize = 2, MaxWait = 50000000, BufferSize = 2,
      RequestIDKeys = [''request_id'', ''req_id'']\<rparr>"

definition example_runtime :: runtime where
  "example_runtime =
     \<lparr>chan_fits = (\<lambda>n. 0 \<le> n \<and> n \<le> 11728124029606),
      slice_fits = (\<lambda>n. 0 \<le> n \<and> n \<le> 11728124029610)\<rparr>"

definition example_core :: core where
  "example_core = fst (fst (projr (pgcore_New example_runtime 1 example_cfg)))"

definition example_state :: state where
  "example_state = snd (projr (pgcore_New example_runtime 1 example_cfg))"

section \<open>Properties\<close>

subsection \<open>What the steps of flush leave alone\<close>

lemma db_log_frame:
  "chans (db_log d p c s) = chans s" "sigs (db_log d p c s) = sigs s"
  "encs (db_log d p c s) = encs s" "fresh (db_log d p c s) = fresh s"
  "batch (db_log d p c s) = batch s" "wg (db_log d p c s) = wg s"
  by (simp_all add: db_log_def db_do_def log_Printf_def split: option.splits)

lemma db_log_calls: "calls (db_log d p c s) = calls s @ [c]"
  by (simp add: db_log_def db_do_def log_Printf_def split: option.splits)

lemma flush_lines_frame:
  "chans (flush_lines um d keys ls s) = chans s \<and> sigs (flush_lines um d keys ls s) = sigs s \<and>
   encs (flush_lines um d keys ls s) = encs s \<and> fresh (flush_lines um d keys ls s) = fresh s \<and>
   batch (flush_lines um d keys ls s) = batch s \<and> wg (flush_lines um d keys ls s) = wg s"
  by (induction ls arbitrary: s) (simp_all add: db_log_frame split: option.splits)

text \<open>The calls of the row loop: one \<open>Exec\<close> for each line that unmarshals, in order.\<close>

lemma flush_lines_calls:
  "calls (flush_lines um d keys ls s) =
     calls s @ List.map_filter
       (\<lambda>line. map_option (\<lambda>tmp. Exec (reqID_of keys tmp) line) (um line)) ls"
  by (induction ls arbitrary: s)
     (simp_all add: db_log_calls List.map_filter_simps split: option.splits)

text \<open>The calls of flush, on each of its four paths.\<close>

lemma flush_calls:
  "calls (flush um d c s) =
     (if batch s = [] then calls s
      else if d (calls s) Begin \<noteq> None then calls s @ [Begin]
      else if d (calls s @ [Begin]) Prepare \<noteq> None then calls s @ [Begin, Prepare, Rollback]
      else calls s @ [Begin, Prepare]
             @ List.map_filter
                 (\<lambda>line. map_option (\<lambda>tmp. Exec (reqID_of (reqKeys c) tmp) line) (um line))
                 (batch s)
             @ [ExecFinal, StmtClose, Commit])"
  by (auto simp add: flush_def db_do_def log_Printf_def db_log_calls flush_lines_calls
      split: option.splits)

lemma flush_frame:
  "chans (flush um d c s) = chans s \<and> sigs (flush um d c s) = sigs s \<and>
   encs (flush um d c s) = encs s \<and> fresh (flush um d c s) = fresh s \<and>
   wg (flush um d c s) = wg s"
  by (simp add: flush_def db_do_def log_Printf_def db_log_frame flush_lines_frame
      split: option.splits)

lemma flush_batch: "batch (flush um d c s) = []"
  by (simp add: flush_def db_do_def log_Printf_def db_log_frame flush_lines_frame
      split: option.splits)

lemma flush_twice: "flush um d c (flush um d c s) = flush um d c s"
  using flush_batch [of um d c s] by (simp add: flush_def [of um d c "flush um d c s"])

lemma map_filter_length: "length (List.map_filter f xs) \<le> length xs"
  by (induction xs) (simp_all add: List.map_filter_simps split: option.splits)

lemma map_filter_append:
  "List.map_filter f (xs @ ys) = List.map_filter f xs @ List.map_filter f ys"
  by (simp add: List.map_filter_def)

lemma map_filter_set:
  "x \<in> set (List.map_filter f xs) \<longleftrightarrow> (\<exists>y\<in>set xs. f y = Some x)"
  by (induction xs) (auto simp add: List.map_filter_simps split: option.splits)

subsection \<open>The log lines of flush\<close>

lemma db_log_logs:
  "set (logs s) \<subseteq> set (logs (db_log d p c s))"
  by (auto simp add: db_log_def db_do_def log_Printf_def split: option.splits)

lemma flush_lines_logs_mono:
  "set (logs s) \<subseteq> set (logs (flush_lines um d keys ls s))"
proof (induction ls arbitrary: s)
  case Nil
  show ?case by simp
next
  case (Cons line rest)
  show ?case
  proof (cases "um line")
    case None
    then show ?thesis using Cons.IH [of s] by simp
  next
    case (Some tmp)
    then show ?thesis
      using Cons.IH [of "db_log d ''pgcore: exec err: '' (Exec (reqID_of keys tmp) line) s"]
        db_log_logs [of s d "''pgcore: exec err: ''" "Exec (reqID_of keys tmp) line"]
      by auto
  qed
qed

text \<open>
  A failed \<open>Exec\<close> leaves its line in the log: \<open>pre\<close> are the lines of the batch before
  the failing one, and the database is asked with the calls made up to that point.
\<close>

lemma flush_lines_logs_failure:
  "um line = Some tmp \<Longrightarrow>
   d (calls s @ List.map_filter
        (\<lambda>l. map_option (\<lambda>t. Exec (reqID_of keys t) l) (um l)) pre)
     (Exec (reqID_of keys tmp) line) = Some e \<Longrightarrow>
   (''pgcore: exec err: '' @ e) \<in> set (logs (flush_lines um d keys (pre @ line # post) s))"
proof (induction pre arbitrary: s)
  case Nil
  then have "(''pgcore: exec err: '' @ e) \<in>
      set (logs (db_log d ''pgcore: exec err: '' (Exec (reqID_of keys tmp) line) s))"
    by (simp add: db_log_def db_do_def log_Printf_def List.map_filter_simps)
  then show ?case
    using Nil flush_lines_logs_mono by fastforce
next
  case (Cons x pre)
  show ?case
  proof (cases "um x")
    case None
    then show ?thesis using Cons by (simp add: List.map_filter_simps)
  next
    case (Some t)
    then show ?thesis
      using Cons.prems
        Cons.IH [of "db_log d ''pgcore: exec err: '' (Exec (reqID_of keys t) x) s"]
      by (simp add: List.map_filter_simps db_log_calls)
  qed
qed

lemma flush_logs_failure:
  assumes "batch s = pre @ line # post" and "um line = Some tmp"
    and "d (calls s) Begin = None" and "d (calls s @ [Begin]) Prepare = None"
    and "d (calls s @ [Begin, Prepare] @ List.map_filter
          (\<lambda>l. map_option (\<lambda>t. Exec (reqID_of (reqKeys c) t) l) (um l)) pre)
        (Exec (reqID_of (reqKeys c) tmp) line) = Some e"
  shows "(''pgcore: exec err: '' @ e) \<in> set (logs (flush um d c s))"
proof -
  let ?s2 = "s\<lparr>calls := calls s @ [Begin, Prepare]\<rparr>"
  have "(''pgcore: exec err: '' @ e) \<in>
      set (logs (flush_lines um d (reqKeys c) (pre @ line # post) ?s2))"
    using assms(2,5) by (intro flush_lines_logs_failure) simp_all
  moreover have "flush um d c s =
      (db_log d ''pgcore: commit err: '' Commit
        (db_log d ''pgcore: stmt close err: '' StmtClose
          (db_log d ''pgcore: final exec err: '' ExecFinal
            (flush_lines um d (reqKeys c) (pre @ line # post) ?s2))))\<lparr>batch := []\<rparr>"
    using assms(1,3,4) by (simp add: flush_def db_do_def)
  moreover have "set (logs s') \<subseteq>
      set (logs (db_log d ''pgcore: commit err: '' Commit
        (db_log d ''pgcore: stmt close err: '' StmtClose
          (db_log d ''pgcore: final exec err: '' ExecFinal s'))))" for s'
    using db_log_logs by (meson subset_trans)
  ultimately show ?thesis
    by auto
qed

subsection \<open>The example environment, evaluated\<close>

lemma example_simps:
  "example_core = \<lparr>enc = 0, level = 0, db = 1, ch = 0, stop = 0, batchSize = 2,
      maxWait = 50000000, reqKeys = [''request_id'', ''req_id'']\<rparr>"
  "example_state = \<lparr>chans = (\<lambda>r. \<lparr>buf = [], cap = 0\<rparr>)(0 := \<lparr>buf = [], cap = 2\<rparr>), sigs = (\<lambda>r. False), encs = (\<lambda>r. []),
      fresh = 1, batch = [], wg = 1, calls = [], logs = []\<rparr>"
  by (simp_all add: example_core_def example_state_def pgcore_New_def pg_defaults_def
      example_cfg_def example_runtime_def InfoLevel_def)

lemma example_New:
  "pgcore_New example_runtime 1 example_cfg = Inr ((example_core, None), example_state)"
  by (simp add: example_core_def example_state_def pgcore_New_def pg_defaults_def
      example_cfg_def example_runtime_def)

lemma example_unmarshal_simps:
  "example_unmarshal payload_abc = Some [''req_id'' \<mapsto> JString ''abc'']"
  "example_unmarshal payload_xyz =
     Some [''request_id'' \<mapsto> JString [], ''req_id'' \<mapsto> JString ''xyz'']"
  "example_unmarshal payload_bad = None"
  by (simp_all add: example_unmarshal_def payload_abc_def payload_xyz_def payload_bad_def)

subsection \<open>The correlation identifier\<close>





subsection \<open>flush\<close>

text \<open>
  C5: after every flush the batch is empty, whatever the database answers (a failed
  begin, a failed prepare, failed inserts, or none): the statement holds for every
  database \<open>d\<close>, every \<open>um\<close> and every state. Nothing is retried or requeued: a second
  flush right after the first does nothing, the channels are as they were, and the flush
  submits at most one row for each line of the batch.
\<close>

theorem flush_resets_batch:
  "batch (flush um d c s) = []
   \<and> flush um d c (flush um d c s) = flush um d c s
   \<and> chans (flush um d c s) = chans s
   \<and> length (filter (\<lambda>call. case call of Exec r raw \<Rightarrow> True | _ \<Rightarrow> False)
         (drop (length (calls s)) (calls (flush um d c s)))) \<le> length (batch s)"
proof (intro conjI)
  show "batch (flush um d c s) = []" by (rule flush_batch)
  show "flush um d c (flush um d c s) = flush um d c s" by (rule flush_twice)
  show "chans (flush um d c s) = chans s" by (simp add: flush_frame)
  let ?rows = "List.map_filter
      (\<lambda>line. map_option (\<lambda>tmp. Exec (reqID_of (reqKeys c) tmp) line) (um line)) (batch s)"
  have "length (filter (\<lambda>call. case call of Exec r raw \<Rightarrow> True | _ \<Rightarrow> False)
         (drop (length (calls s)) (calls (flush um d c s)))) \<le> length ?rows"
    by (simp add: flush_calls le_trans [OF length_filter_le])
  also have "\<dots> \<le> length (batch s)" by (rule map_filter_length)
  finally show "length (filter (\<lambda>call. case call of Exec r raw \<Rightarrow> True | _ \<Rightarrow> False)
         (drop (length (calls s)) (calls (flush um d c s)))) \<le> length (batch s)" .
qed

text \<open>
  C2, as the code has it: a payload of the batch that does not unmarshal is skipped.
  The flush submits no row for it, with any correlation identifier (if none was
  submitted before the flush, none has been after it), and the batch is reset, so its
  bytes are gone.
\<close>

theorem flush_skips_unparseable:
  assumes "um line = None" and "Exec r line \<notin> set (calls s)"
  shows "Exec r line \<notin> set (calls (flush um d c s)) \<and> batch (flush um d c s) = []"
  using assms by (auto simp add: flush_calls flush_batch map_filter_set)

theorem flush_skips_unparseable_witness:
  "example_unmarshal payload_bad = None
   \<and> Exec [] payload_bad \<notin> set (calls (example_state\<lparr>batch := [payload_abc, payload_bad]\<rparr>))
   \<and> Exec [] payload_bad \<notin>
       set (calls (flush example_unmarshal db_ok example_core
                     (example_state\<lparr>batch := [payload_abc, payload_bad]\<rparr>)))"
proof -
  have h1: "example_unmarshal payload_bad = None"
    by (simp add: example_unmarshal_simps)
  have h2: "Exec [] payload_bad \<notin>
      set (calls (example_state\<lparr>batch := [payload_abc, payload_bad]\<rparr>))"
    by (simp add: example_simps)
  from flush_skips_unparseable [of example_unmarshal payload_bad "[]"
      "example_state\<lparr>batch := [payload_abc, payload_bad]\<rparr>" db_ok example_core, OF h1 h2]
    h1 h2
  show ?thesis by simp
qed

text \<open>
  C2 as stated fails: the batch holds the one payload \<open>not json\<close>, every database call
  succeeds, and the flush makes five calls, none of them the insert of that payload
  with an empty correlation identifier.
\<close>

theorem flush_unparseable_example:
  "example_unmarshal payload_bad = None
   \<and> calls (flush example_unmarshal db_ok example_core (example_state\<lparr>batch := [payload_bad]\<rparr>))
       = [Begin, Prepare, ExecFinal, StmtClose, Commit]
   \<and> Exec [] payload_bad \<notin>
       set (calls (flush example_unmarshal db_ok example_core
                     (example_state\<lparr>batch := [payload_bad]\<rparr>)))"
  by (simp add: flush_calls example_simps example_unmarshal_simps db_ok_def
      List.map_filter_simps)

text \<open>
  C6, as the code has it: the transaction is open (begin and prepare succeeded) and the
  insert of \<open>line\<close>, a payload of the batch that unmarshals, fails with \<open>e\<close>. Then the
  calls of the flush are begin, prepare, one insert for each payload before \<open>line\<close>
  that unmarshals, the failed insert, one insert for each payload after \<open>line\<close> that
  unmarshals, then the final exec, the statement's close and the commit; there is no
  rollback among them; the failure is in the log; and the batch is reset, with nothing
  retried. A payload that does not unmarshal is skipped, before or after the failure.
\<close>

theorem flush_continues_after_exec_error:
  assumes "batch s = pre @ line # post" and "um line = Some tmp"
    and "d (calls s) Begin = None" and "d (calls s @ [Begin]) Prepare = None"
    and "d (calls s @ [Begin, Prepare] @ List.map_filter
          (\<lambda>l. map_option (\<lambda>t. Exec (reqID_of (reqKeys c) t) l) (um l)) pre)
        (Exec (reqID_of (reqKeys c) tmp) line) = Some e"
  shows "calls (flush um d c s) =
           calls s @ [Begin, Prepare]
           @ List.map_filter (\<lambda>l. map_option (\<lambda>t. Exec (reqID_of (reqKeys c) t) l) (um l)) pre
           @ [Exec (reqID_of (reqKeys c) tmp) line]
           @ List.map_filter (\<lambda>l. map_option (\<lambda>t. Exec (reqID_of (reqKeys c) t) l) (um l)) post
           @ [ExecFinal, StmtClose, Commit]
         \<and> Rollback \<notin> set (drop (length (calls s)) (calls (flush um d c s)))
         \<and> (''pgcore: exec err: '' @ e) \<in> set (logs (flush um d c s))
         \<and> batch (flush um d c s) = []"
proof (intro conjI)
  show calls_eq: "calls (flush um d c s) =
           calls s @ [Begin, Prepare]
           @ List.map_filter (\<lambda>l. map_option (\<lambda>t. Exec (reqID_of (reqKeys c) t) l) (um l)) pre
           @ [Exec (reqID_of (reqKeys c) tmp) line]
           @ List.map_filter (\<lambda>l. map_option (\<lambda>t. Exec (reqID_of (reqKeys c) t) l) (um l)) post
           @ [ExecFinal, StmtClose, Commit]"
    using assms(1-4) by (simp add: flush_calls map_filter_append List.map_filter_simps)
  show "Rollback \<notin> set (drop (length (calls s)) (calls (flush um d c s)))"
    by (auto simp add: calls_eq map_filter_set)
  show "(''pgcore: exec err: '' @ e) \<in> set (logs (flush um d c s))"
    using assms by (rule flush_logs_failure)
  show "batch (flush um d c s) = []"
    by (rule flush_batch)
qed

theorem flush_continues_after_exec_error_witness:
  "calls (flush example_unmarshal db_exec_fails example_core
            (example_state\<lparr>batch := [payload_abc, payload_xyz]\<rparr>))
     = [Begin, Prepare, Exec ''abc'' payload_abc, Exec ''xyz'' payload_xyz,
        ExecFinal, StmtClose, Commit]
   \<and> ''pgcore: exec err: copy failed'' \<in>
       set (logs (flush example_unmarshal db_exec_fails example_core
                    (example_state\<lparr>batch := [payload_abc, payload_xyz]\<rparr>)))"
proof -
  let ?s = "example_state\<lparr>batch := [payload_abc, payload_xyz]\<rparr>"
  have h1: "batch ?s = [] @ payload_abc # [payload_xyz]"
    by simp
  have h2: "example_unmarshal payload_abc = Some [''req_id'' \<mapsto> JString ''abc'']"
    by (simp add: example_unmarshal_simps)
  have h3: "db_exec_fails (calls ?s) Begin = None"
    by (simp add: db_exec_fails_def)
  have h4: "db_exec_fails (calls ?s @ [Begin]) Prepare = None"
    by (simp add: db_exec_fails_def)
  have h5: "db_exec_fails (calls ?s @ [Begin, Prepare] @ List.map_filter
          (\<lambda>l. map_option (\<lambda>t. Exec (reqID_of (reqKeys example_core) t) l)
             (example_unmarshal l)) [])
        (Exec (reqID_of (reqKeys example_core) [''req_id'' \<mapsto> JString ''abc'']) payload_abc)
        = Some ''copy failed''"
    by (simp add: db_exec_fails_def)
  from flush_continues_after_exec_error [of ?s "[]" payload_abc "[payload_xyz]"
      example_unmarshal "[''req_id'' \<mapsto> JString ''abc'']" db_exec_fails example_core
      "''copy failed''", OF h1 h2 h3 h4 h5]
  show ?thesis
    by (simp add: example_simps example_unmarshal_simps List.map_filter_simps)
qed

text \<open>
  C6 as stated fails: the insert of the first payload fails, and the payload that
  remains, \<open>not json\<close>, is not attempted: the flush goes from the failed insert to the
  final exec.
\<close>

theorem flush_exec_error_example:
  "db_exec_fails [Begin, Prepare] (Exec ''abc'' payload_abc) = Some ''copy failed''
   \<and> calls (flush example_unmarshal db_exec_fails example_core
              (example_state\<lparr>batch := [payload_abc, payload_bad]\<rparr>))
       = [Begin, Prepare, Exec ''abc'' payload_abc, ExecFinal, StmtClose, Commit]"
  by (simp add: flush_calls example_simps example_unmarshal_simps db_exec_fails_def
      List.map_filter_simps)

subsection \<open>Write\<close>

lemma Write_encs: "encs (snd (Write encode c ent fs s)) = encs s"
  by (simp add: Write_def log_Printf_def Let_def split: sum.splits)

lemma Write_ok:
  "encode (encs s (enc c)) ent fs = Inr b \<Longrightarrow>
   Write encode c ent fs s =
     (None, if length (buf (chans s (ch c))) < cap (chans s (ch c))
            then s\<lparr>chans := (chans s)(ch c := (chans s (ch c))\<lparr>buf := buf (chans s (ch c)) @ [b]\<rparr>)\<rparr>
            else log_Printf ''pgcore: dropping log (buffer full)'' s)"
  by (simp add: Write_def Let_def)

lemma Write_all_buf:
  "list_all2 (\<lambda>(ent, fs) b. encode pre ent fs = Inr b) es bs \<Longrightarrow>
   encs s (enc c) = pre \<Longrightarrow>
   length (buf (chans s (ch c))) \<le> cap (chans s (ch c)) \<Longrightarrow>
   buf (chans (fold (\<lambda>(ent, fs) s'. snd (Write encode c ent fs s')) es s) (ch c))
     = take (cap (chans s (ch c))) (buf (chans s (ch c)) @ bs)
   \<and> cap (chans (fold (\<lambda>(ent, fs) s'. snd (Write encode c ent fs s')) es s) (ch c))
     = cap (chans s (ch c))"
proof (induction es bs arbitrary: s rule: list_all2_induct)
  case Nil
  then show ?case by simp
next
  case (Cons e es b bs)
  obtain ent fs where e: "e = (ent, fs)" by (cases e)
  let ?s1 = "snd (Write encode c ent fs s)"
  have enc: "encode (encs s (enc c)) ent fs = Inr b"
    using Cons.hyps(1) Cons.prems(1) e by simp
  note W = Write_ok [of encode s c ent fs b, OF enc]
  have encs1: "encs ?s1 = encs s" by (rule Write_encs)
  have cap1: "cap (chans ?s1 (ch c)) = cap (chans s (ch c))"
    by (simp add: W log_Printf_def)
  have buf1: "buf (chans ?s1 (ch c)) =
      (if length (buf (chans s (ch c))) < cap (chans s (ch c))
       then buf (chans s (ch c)) @ [b] else buf (chans s (ch c)))"
    by (simp add: W log_Printf_def)
  have len1: "length (buf (chans ?s1 (ch c))) \<le> cap (chans ?s1 (ch c))"
    using Cons.prems(2) by (simp add: buf1 cap1)
  have pre1: "encs ?s1 (enc c) = pre"
    using Cons.prems(1) by (simp add: encs1)
  have "take (cap (chans s (ch c))) (buf (chans ?s1 (ch c)) @ bs)
      = take (cap (chans s (ch c))) (buf (chans s (ch c)) @ b # bs)"
    using Cons.prems(2) by (auto simp add: buf1 take_Cons')
  then show ?case
    using Cons.IH [OF pre1 len1] by (simp add: e cap1)
qed


text \<open>
  C4: when the encoding succeeds, Write returns nil, with the payload appended at the end
  of the queue when the queue holds fewer entries than its capacity, and the queue as it
  was (the new payload dropped, the oldest kept) when it is full. Write is a total
  function of the state: the select has a default branch, so there is no state in which
  it waits. Writing any records into an empty queue with nothing received in between
  leaves the first capacity-many payloads in arrival order; with one record more than
  the capacity, exactly all but the last.
\<close>

theorem Write_drops_new_when_full:
  "(encode (encs s (enc c)) ent fs = Inr b \<longrightarrow>
      fst (Write encode c ent fs s) = None
      \<and> buf (chans (snd (Write encode c ent fs s)) (ch c)) =
          (if length (buf (chans s (ch c))) < cap (chans s (ch c))
           then buf (chans s (ch c)) @ [b] else buf (chans s (ch c)))
      \<and> cap (chans (snd (Write encode c ent fs s)) (ch c)) = cap (chans s (ch c)))
   \<and> (list_all2 (\<lambda>(ent, fs) b. encode (encs s (enc c)) ent fs = Inr b) es bs
        \<and> buf (chans s (ch c)) = [] \<longrightarrow>
      buf (chans (fold (\<lambda>(ent, fs) s'. snd (Write encode c ent fs s')) es s) (ch c))
        = take (cap (chans s (ch c))) bs)
   \<and> (list_all2 (\<lambda>(ent, fs) b. encode (encs s (enc c)) ent fs = Inr b) es (bs @ [b'])
        \<and> buf (chans s (ch c)) = [] \<and> cap (chans s (ch c)) = length bs \<longrightarrow>
      buf (chans (fold (\<lambda>(ent, fs) s'. snd (Write encode c ent fs s')) es s) (ch c)) = bs)"
proof (intro conjI impI)
  assume enc: "encode (encs s (enc c)) ent fs = Inr b"
  note W = Write_ok [of encode s c ent fs b, OF enc]
  show "fst (Write encode c ent fs s) = None"
    by (simp add: W)
  show "buf (chans (snd (Write encode c ent fs s)) (ch c)) =
          (if length (buf (chans s (ch c))) < cap (chans s (ch c))
           then buf (chans s (ch c)) @ [b] else buf (chans s (ch c)))"
    by (simp add: W log_Printf_def)
  show "cap (chans (snd (Write encode c ent fs s)) (ch c)) = cap (chans s (ch c))"
    by (simp add: W log_Printf_def)
next
  assume "list_all2 (\<lambda>(ent, fs) b. encode (encs s (enc c)) ent fs = Inr b) es bs
        \<and> buf (chans s (ch c)) = []"
  then show "buf (chans (fold (\<lambda>(ent, fs) s'. snd (Write encode c ent fs s')) es s) (ch c))
        = take (cap (chans s (ch c))) bs"
    using Write_all_buf [of encode "encs s (enc c)" es bs s c] by simp
next
  assume "list_all2 (\<lambda>(ent, fs) b. encode (encs s (enc c)) ent fs = Inr b) es (bs @ [b'])
        \<and> buf (chans s (ch c)) = [] \<and> cap (chans s (ch c)) = length bs"
  then show "buf (chans (fold (\<lambda>(ent, fs) s'. snd (Write encode c ent fs s')) es s) (ch c)) = bs"
    using Write_all_buf [of encode "encs s (enc c)" es "bs @ [b']" s c] by simp
qed

theorem Write_drops_new_when_full_witness:
  "buf (chans (fold (\<lambda>(ent, fs) s'. snd (Write example_encode example_core ent fs s'))
                [(\<lparr>Level = InfoLevel, Message = payload_abc\<rparr>, []),
                 (\<lparr>Level = InfoLevel, Message = payload_xyz\<rparr>, []),
                 (\<lparr>Level = InfoLevel, Message = payload_bad\<rparr>, [])]
                example_state) (ch example_core))
     = [payload_abc, payload_xyz]
   \<and> fst (Write example_encode example_core \<lparr>Level = InfoLevel, Message = payload_bad\<rparr> []
            (example_state\<lparr>chans := (\<lambda>r. \<lparr>buf = [payload_abc, payload_xyz], cap = 2\<rparr>)\<rparr>))
       = None"
  using Write_drops_new_when_full [of example_encode example_state example_core
      "\<lparr>Level = InfoLevel, Message = payload_abc\<rparr>" "[]" payload_abc
      "[(\<lparr>Level = InfoLevel, Message = payload_abc\<rparr>, []),
        (\<lparr>Level = InfoLevel, Message = payload_xyz\<rparr>, []),
        (\<lparr>Level = InfoLevel, Message = payload_bad\<rparr>, [])]"
      "[payload_abc, payload_xyz, payload_bad]"]
    Write_drops_new_when_full [of example_encode
      "example_state\<lparr>chans := (\<lambda>r. \<lparr>buf = [payload_abc, payload_xyz], cap = 2\<rparr>)\<rparr>"
      example_core "\<lparr>Level = InfoLevel, Message = payload_bad\<rparr>" "[]" payload_bad]
  by (simp add: example_simps example_encode_def)

subsection \<open>With\<close>

lemma fold_AddTo:
  "fold (\<lambda>f. AddTo f e) fs s = s\<lparr>encs := (encs s)(e := encs s e @ fs)\<rparr>"
  by (induction fs arbitrary: s) (simp_all add: AddTo_def)

lemma With_eq:
  "With c fs s =
     (\<lparr>enc = fresh s, level = level c, db = db c, ch = ch c, stop = stop c,
       batchSize = batchSize c, maxWait = maxWait c, reqKeys = reqKeys c\<rparr>,
      s\<lparr>encs := (encs s)(fresh s := encs s (enc c) @ fs), fresh := Suc (fresh s)\<rparr>)"
  by (simp add: With_def Clone_def fold_AddTo)

text \<open>
  C9: \<open>c\<close> is a core of the state (its encoder was allocated: \<open>enc c < fresh s\<close>, which
  \<^verbatim>\<open>pgcore.New\<close> establishes and With keeps). The core With returns has the parent's queue
  channel, stop channel, database handle, batch size, max-wait, key list and level; its
  encoder is a new one, holding the parent's pre-bound fields followed by the new
  fields, and the parent's encoder holds what it held. The channels, the signals, the
  WaitGroup counter, the worker's batch, the database calls and the log are unchanged:
  no worker is started and no channel is made.
\<close>

theorem With_shares_resources:
  assumes "enc c < fresh s"
  shows "ch (fst (With c fs s)) = ch c \<and> stop (fst (With c fs s)) = stop c
    \<and> db (fst (With c fs s)) = db c \<and> batchSize (fst (With c fs s)) = batchSize c
    \<and> maxWait (fst (With c fs s)) = maxWait c \<and> reqKeys (fst (With c fs s)) = reqKeys c
    \<and> level (fst (With c fs s)) = level c
    \<and> enc (fst (With c fs s)) \<noteq> enc c
    \<and> encs (snd (With c fs s)) (enc (fst (With c fs s))) = encs s (enc c) @ fs
    \<and> encs (snd (With c fs s)) (enc c) = encs s (enc c)
    \<and> chans (snd (With c fs s)) = chans s \<and> sigs (snd (With c fs s)) = sigs s
    \<and> wg (snd (With c fs s)) = wg s \<and> batch (snd (With c fs s)) = batch s
    \<and> calls (snd (With c fs s)) = calls s \<and> logs (snd (With c fs s)) = logs s
    \<and> enc c < fresh (snd (With c fs s))
    \<and> enc (fst (With c fs s)) < fresh (snd (With c fs s))
    \<and> (pgcore_New rt dbh cfg = Inr ((c', e'), s') \<longrightarrow> enc c' < fresh s')"
  using assms by (auto simp add: With_eq pgcore_New_def Let_def split: if_splits)

theorem With_shares_resources_witness:
  "enc example_core < fresh example_state
   \<and> ch (fst (With example_core [(''service'', JString ''api'')] example_state)) = ch example_core
   \<and> stop (fst (With example_core [(''service'', JString ''api'')] example_state))
       = stop example_core
   \<and> encs (snd (With example_core [(''service'', JString ''api'')] example_state))
        (enc (fst (With example_core [(''service'', JString ''api'')] example_state)))
       = [(''service'', JString ''api'')]
   \<and> encs (snd (With example_core [(''service'', JString ''api'')] example_state))
        (enc example_core) = []
   \<and> wg (snd (With example_core [(''service'', JString ''api'')] example_state)) = 1
   \<and> pgcore_New example_runtime 1 example_cfg = Inr ((example_core, None), example_state)"
proof -
  have h: "enc example_core < fresh example_state"
    by (simp add: example_simps)
  from With_shares_resources [OF h, of "[(''service'', JString ''api'')]" example_runtime 1
      example_cfg example_core None example_state] h example_New
  show ?thesis by (simp add: example_simps)
qed

subsection \<open>The level filter\<close>

text \<open>
  C8: acceptance is the comparison \<open>level c \<le> lvl\<close> on zap's levels, where
  Debug < Info < Warn < Error < Fatal, and the level of the core is the configured one.
  For an entry below the level of the core, Enabled is false, Check returns the checked
  entry it was given, with no core added, and a record logged through the core leaves
  the state as it was: nothing is enqueued, so nothing of it is batched or submitted.
\<close>

theorem Check_rejects_below_threshold:
  "(Level ent < level c \<longrightarrow>
      \<not> Enabled c (Level ent) \<and> Check c ent ce = ce \<and> emit encode c ent fs s = s)
   \<and> Enabled c lvl = (level c \<le> lvl)
   \<and> (pgcore_New rt dbh cfg = Inr ((c', e'), s') \<longrightarrow> level c' = pg_Level cfg)
   \<and> DebugLevel < InfoLevel \<and> InfoLevel < WarnLevel \<and> WarnLevel < ErrorLevel
   \<and> ErrorLevel < FatalLevel"
  by (auto simp add: Enabled_def Check_def emit_def pgcore_New_def pg_defaults_def Let_def
      DebugLevel_def InfoLevel_def WarnLevel_def ErrorLevel_def FatalLevel_def
      split: if_splits)

theorem Check_rejects_below_threshold_witness:
  "Level \<lparr>Level = InfoLevel, Message = payload_abc\<rparr> < level (example_core\<lparr>level := WarnLevel\<rparr>)
   \<and> \<not> Enabled (example_core\<lparr>level := WarnLevel\<rparr>) InfoLevel
   \<and> Check (example_core\<lparr>level := WarnLevel\<rparr>) \<lparr>Level = InfoLevel, Message = payload_abc\<rparr> None
       = None
   \<and> emit example_encode (example_core\<lparr>level := WarnLevel\<rparr>)
         \<lparr>Level = InfoLevel, Message = payload_abc\<rparr> [] example_state = example_state
   \<and> pgcore_New example_runtime 1 example_cfg = Inr ((example_core, None), example_state)
   \<and> level example_core = pg_Level example_cfg"
  using Check_rejects_below_threshold [of "\<lparr>Level = InfoLevel, Message = payload_abc\<rparr>"
      "example_core\<lparr>level := WarnLevel\<rparr>" None example_encode "[]" example_state
      InfoLevel example_runtime 1 example_cfg example_core None example_state]
    example_New
  by (simp add: InfoLevel_def WarnLevel_def)

subsection \<open>The close function\<close>

lemma select_step_sigs:
  "select_step um d c x s = Some (r, s1) \<Longrightarrow> sigs s1 = sigs s"
  by (cases x) (auto simp add: flush_frame Let_def split: if_splits list.splits)

lemma loop_sigs: "sigs (loop um d c sched s) = sigs s"
proof (induction sched arbitrary: s)
  case Nil
  show ?case by simp
next
  case (Cons x xs)
  show ?case
  proof (cases "select_step um d c x s")
    case None
    then show ?thesis using Cons.IH by simp
  next
    case (Some p)
    obtain r s1 where p: "p = (r, s1)" by (cases p)
    then show ?thesis
      using Some Cons.IH [of s1] select_step_sigs [of um d c x s r s1]
      by (cases r) simp_all
  qed
qed

lemma worker_sigs: "sigs (worker um d c sched s) = sigs s"
  by (simp add: worker_def loop_sigs)

text \<open>
  C10: the close function has no guard: whenever the stop channel is closed it panics,
  whatever else holds. So a second call, after a first one that returned (with nil or
  with the context's error, on any schedule, database and state), panics.
\<close>

theorem closeFn_twice_panics:
  "(sigs s (stop c) \<longrightarrow> closeFn um d c sched s = Inl ''close of closed channel'')
   \<and> (closeFn um d c sched s = Inr (r, s1) \<longrightarrow>
        closeFn um' d' c sched' s1 = Inl ''close of closed channel'')"
  by (auto simp add: closeFn_def Let_def worker_sigs split: if_splits)

theorem closeFn_twice_panics_witness:
  "closeFn example_unmarshal db_ok example_core [CaseStop] example_state
     = Inr (None, example_state\<lparr>sigs := (sigs example_state)(0 := True), wg := 0\<rparr>)
   \<and> closeFn example_unmarshal db_ok example_core [CaseStop]
       (example_state\<lparr>sigs := (sigs example_state)(0 := True), wg := 0\<rparr>)
     = Inl ''close of closed channel''"
proof -
  have h: "closeFn example_unmarshal db_ok example_core [CaseStop] example_state
     = Inr (None, example_state\<lparr>sigs := (sigs example_state)(0 := True), wg := 0\<rparr>)"
    by (simp add: closeFn_def worker_def flush_def example_simps)
  from closeFn_twice_panics [of example_state example_core example_unmarshal db_ok
      "[CaseStop]" None "example_state\<lparr>sigs := (sigs example_state)(0 := True), wg := 0\<rparr>"
      example_unmarshal db_ok "[CaseStop]"] h
  show ?thesis by simp
qed

text \<open>
  When the first case the worker's select takes after \<^verbatim>\<open>close(c.stop)\<close> is the stop
  case, the queue is after the close function what it was before: the worker flushes
  its batch and returns without receiving from \<^verbatim>\<open>c.ch\<close>.
\<close>

lemma closeFn_stop_first_keeps_queue:
  assumes "\<not> sigs s (stop c)" and "wg s \<noteq> 0"
  shows "closeFn um d c (CaseStop # sched) s =
           Inr (if wg s = 1 then None else Some ''context deadline exceeded'',
                (flush um d c (s\<lparr>sigs := (sigs s)(stop c := True)\<rparr>))\<lparr>wg := wg s - 1\<rparr>)
         \<and> chans ((flush um d c (s\<lparr>sigs := (sigs s)(stop c := True)\<rparr>))\<lparr>wg := wg s - 1\<rparr>)
             = chans s"
  using assms by (auto simp add: closeFn_def worker_def Let_def flush_frame)

text \<open>
  C1 on the code: a sink of capacity 2, one record written (and enqueued: Write returns
  nil and the queue holds it), then the close function, with a context that does not
  expire, while the worker's select takes the stop case. The close function returns
  nil, the WaitGroup is at zero, no database call has been made, and the record is
  still in the queue; the worker has returned, so whatever is scheduled afterwards
  leaves the state as it is.
\<close>

theorem closeFn_leaves_queue_example:
  "Write example_encode example_core \<lparr>Level = InfoLevel, Message = payload_abc\<rparr> []
      example_state
     = (None, example_state\<lparr>chans := (chans example_state)
                (0 := \<lparr>buf = [payload_abc], cap = 2\<rparr>)\<rparr>)
   \<and> closeFn example_unmarshal db_ok example_core [CaseStop]
       (example_state\<lparr>chans := (chans example_state)(0 := \<lparr>buf = [payload_abc], cap = 2\<rparr>)\<rparr>)
     = Inr (None, example_state\<lparr>chans := (chans example_state)
                     (0 := \<lparr>buf = [payload_abc], cap = 2\<rparr>),
                   sigs := (sigs example_state)(0 := True), wg := 0\<rparr>)
   \<and> calls (example_state\<lparr>chans := (chans example_state)
                     (0 := \<lparr>buf = [payload_abc], cap = 2\<rparr>),
                   sigs := (sigs example_state)(0 := True), wg := 0\<rparr>) = []
   \<and> worker example_unmarshal db_ok example_core sched
        (example_state\<lparr>chans := (chans example_state)
                     (0 := \<lparr>buf = [payload_abc], cap = 2\<rparr>),
                   sigs := (sigs example_state)(0 := True), wg := 0\<rparr>)
     = example_state\<lparr>chans := (chans example_state)
                     (0 := \<lparr>buf = [payload_abc], cap = 2\<rparr>),
                   sigs := (sigs example_state)(0 := True), wg := 0\<rparr>"
  by (simp add: Write_def closeFn_def worker_def flush_def example_simps example_encode_def)

section \<open>betterlogs.New\<close>

lemma New_error_cases:
  "(\<not> Stdout cfg \<and> \<not> EnablePostgres cfg) \<or> (EnablePostgres cfg \<and> DB cfg = None) \<Longrightarrow>
   New rt cfg =
     Inr ((None, None,
           Some (if EnablePostgres cfg
                 then ''better-logs: EnablePostgres is true but DB is nil''
                 else ''better-logs: no logging core enabled (Stdout=false and EnablePostgres=false)'')),
          None)"
  by (auto simp add: New_def New_finish_def Let_def)

lemma New_returns_error_iff:
  "(\<exists>lg cl e st. New rt cfg = Inr ((lg, cl, Some e), st)) =
     ((\<not> Stdout cfg \<and> \<not> EnablePostgres cfg) \<or> (EnablePostgres cfg \<and> DB cfg = None))"
  by (auto simp add: New_def New_finish_def pgcore_New_def Let_def
      split: option.splits if_splits)

text \<open>
  C7, as the code has it: New returns an error exactly when no sink is enabled (Stdout
  and EnablePostgres both false) or the Postgres sink is enabled with a nil handle, and
  then the logger and the cleanup are nil and no sink was started. In every other
  configuration New returns a logger, a cleanup and a nil error, provided that, when
  the Postgres sink is enabled, the runtime can make the queue (BufferSize entries, 10000
  when it is not positive) and the worker's batch (BatchSize entries, 1000 when it is
  not positive). When the sink is enabled with a handle and the runtime cannot make the
  queue, New panics: it returns nothing.
\<close>

theorem New_fails_iff_no_sink_or_nil_db:
  "((\<exists>lg cl e st. New rt cfg = Inr ((lg, cl, Some e), st)) =
      ((\<not> Stdout cfg \<and> \<not> EnablePostgres cfg) \<or> (EnablePostgres cfg \<and> DB cfg = None)))
   \<and> ((\<not> Stdout cfg \<and> \<not> EnablePostgres cfg) \<or> (EnablePostgres cfg \<and> DB cfg = None) \<longrightarrow>
        (\<exists>e. New rt cfg = Inr ((None, None, Some e), None)))
   \<and> (\<not> ((\<not> Stdout cfg \<and> \<not> EnablePostgres cfg) \<or> (EnablePostgres cfg \<and> DB cfg = None))
        \<and> (EnablePostgres cfg \<longrightarrow>
             chan_fits rt (if PG_BufferSize cfg \<le> 0 then 10000 else PG_BufferSize cfg)
             \<and> slice_fits rt (if PG_BatchSize cfg \<le> 0 then 1000 else PG_BatchSize cfg))
        \<longrightarrow> (\<exists>lg cl st. New rt cfg = Inr ((Some lg, Some cl, None), st)))
   \<and> (EnablePostgres cfg \<and> DB cfg \<noteq> None
        \<and> \<not> chan_fits rt (if PG_BufferSize cfg \<le> 0 then 10000 else PG_BufferSize cfg)
        \<longrightarrow> New rt cfg = Inl ''makechan: size out of range'')"
proof (intro conjI impI)
  show "(\<exists>lg cl e st. New rt cfg = Inr ((lg, cl, Some e), st)) =
      ((\<not> Stdout cfg \<and> \<not> EnablePostgres cfg) \<or> (EnablePostgres cfg \<and> DB cfg = None))"
    by (rule New_returns_error_iff)
next
  assume "(\<not> Stdout cfg \<and> \<not> EnablePostgres cfg) \<or> (EnablePostgres cfg \<and> DB cfg = None)"
  then show "\<exists>e. New rt cfg = Inr ((None, None, Some e), None)"
    using New_error_cases [of cfg rt] by simp
next
  assume "\<not> ((\<not> Stdout cfg \<and> \<not> EnablePostgres cfg) \<or> (EnablePostgres cfg \<and> DB cfg = None))
        \<and> (EnablePostgres cfg \<longrightarrow>
             chan_fits rt (if PG_BufferSize cfg \<le> 0 then 10000 else PG_BufferSize cfg)
             \<and> slice_fits rt (if PG_BatchSize cfg \<le> 0 then 1000 else PG_BatchSize cfg))"
  then show "\<exists>lg cl st. New rt cfg = Inr ((Some lg, Some cl, None), st)"
    by (auto simp add: New_def New_finish_def pgcore_New_def pg_defaults_def Let_def
        split: option.splits)
next
  assume "EnablePostgres cfg \<and> DB cfg \<noteq> None
        \<and> \<not> chan_fits rt (if PG_BufferSize cfg \<le> 0 then 10000 else PG_BufferSize cfg)"
  then show "New rt cfg = Inl ''makechan: size out of range''"
    by (auto simp add: New_def pgcore_New_def pg_defaults_def Let_def split: option.splits)
qed

theorem New_fails_iff_no_sink_or_nil_db_witness:
  "New example_runtime \<lparr>ServiceName = [], DB = None, cfg_Level = InfoLevel, Stdout = False,
       EnablePostgres = False, PG_BatchSize = 0, PG_MaxWait = 0, PG_BufferSize = 0\<rparr>
     = Inr ((None, None,
        Some ''better-logs: no logging core enabled (Stdout=false and EnablePostgres=false)''),
        None)
   \<and> New example_runtime \<lparr>ServiceName = [], DB = None, cfg_Level = InfoLevel, Stdout = True,
       EnablePostgres = True, PG_BatchSize = 0, PG_MaxWait = 0, PG_BufferSize = 0\<rparr>
     = Inr ((None, None, Some ''better-logs: EnablePostgres is true but DB is nil''), None)
   \<and> chan_fits example_runtime 10000 \<and> slice_fits example_runtime 1000
   \<and> (\<exists>lg cl st. New example_runtime \<lparr>ServiceName = [], DB = Some 1, cfg_Level = InfoLevel,
       Stdout = False, EnablePostgres = True, PG_BatchSize = 0, PG_MaxWait = 0,
       PG_BufferSize = 0\<rparr> = Inr ((Some lg, Some cl, None), st))"
  using New_fails_iff_no_sink_or_nil_db [of example_runtime "\<lparr>ServiceName = [], DB = Some 1,
       cfg_Level = InfoLevel, Stdout = False,
       EnablePostgres = True, PG_BatchSize = 0, PG_MaxWait = 0, PG_BufferSize = 0\<rparr>"]
  by (simp add: New_def New_finish_def example_runtime_def Let_def)

text \<open>
  C7 as stated fails: both sinks are enabled, the handle is not nil, and BufferSize is
  the largest \<^verbatim>\<open>int\<close>. The construction does not succeed: the make of the channel
  panics.
\<close>

theorem New_huge_buffer_example:
  "\<not> chan_fits example_runtime 9223372036854775807
   \<and> New example_runtime \<lparr>ServiceName = ''api'', DB = Some 1, cfg_Level = InfoLevel,
       Stdout = True, EnablePostgres = True, PG_BatchSize = 1000, PG_MaxWait = 0,
       PG_BufferSize = 9223372036854775807\<rparr>
     = Inl ''makechan: size out of range''"
  by (simp add: New_def pgcore_New_def pg_defaults_def example_runtime_def Let_def)

end
